theory Spec2Isabelle
  imports Complex_Main "HOL-Library.Sublist"
begin

section \<open>Data model of \<open>app.js\<close>\<close>

text \<open>
  The page is one script, \<open>src/app.js\<close>: four globals (\<open>model\<close>, \<open>stream\<close>,
  \<open>running\<close>, \<open>rafId\<close>), two click handlers, the asynchronous function \<open>loop\<close>
  and the drawing routine \<open>drawBoxes\<close>.
\<close>

text \<open>One element of the array returned by \<open>model.detect\<close>: \<open>{class, score, bbox:[x,y,w,h]}\<close>.\<close>

record prediction =
  pclass :: string
  score :: rat
  bbox :: "rat \<times> rat \<times> rat \<times> rat"

text \<open>\<open>const DANGEROUS = new Set(['knife', 'scissors', 'baseball bat'])\<close>\<close>

definition DANGEROUS :: "string set" where
  "DANGEROUS = {''knife'', ''scissors'', ''baseball bat''}"

text \<open>
  The conditional expression of lines 93 to 95,
  \<open>showAll.checked ? predictions : predictions.filter(p => DANGEROUS.has(p.class))\<close>,
  as a function of the checkbox and the prediction array.
\<close>

definition filtered :: "bool \<Rightarrow> prediction list \<Rightarrow> prediction list" where
  "filtered showAll_is_checked predictions =
     (if showAll_is_checked then predictions
      else filter (\<lambda>p. pclass p \<in> DANGEROUS) predictions)"

subsection \<open>Numbers\<close>

text \<open>
  A JavaScript number is a double. Here a finite double is the rational it denotes, and
  each arithmetic operation of the script is its exact result rounded to the nearest
  double, on a tie to the one with the even significand (\<open>binary64\<close> below, with
  gradual underflow). Infinities, NaN and the sign of zero are left out: on clock
  readings, pixel coordinates and scores between 0 and 1 no operation of the script
  produces them.
\<close>

definition round_half_even :: "rat \<Rightarrow> int" where
  "round_half_even y =
     (let f = \<lfloor>y\<rfloor>; r = y - of_int f
      in if r < 1 / 2 then f else if 1 / 2 < r then f + 1 else if even f then f else f + 1)"

fun bit_length :: "nat \<Rightarrow> nat" where
  "bit_length n = (if n = 0 then 0 else Suc (bit_length (n div 2)))"

declare bit_length.simps [simp del]

text \<open>For \<open>a > 0\<close>, the integer \<open>e\<close> with \<open>2^e \<le> a < 2^(e+1)\<close>.\<close>

definition exponent :: "rat \<Rightarrow> int" where
  "exponent a =
     (if 1 \<le> a then int (bit_length (nat \<lfloor>a\<rfloor>)) - 1
      else - int (bit_length (nat (\<lceil>1 / a\<rceil> - 1))))"

definition pow2 :: "int \<Rightarrow> rat" where
  "pow2 k = (if 0 \<le> k then 2 ^ nat k else 1 / 2 ^ nat (- k))"

text \<open>
  The doubles around \<open>x\<close> are the multiples of \<open>2^(e - 52)\<close>, where \<open>e\<close> is the exponent
  of \<open>|x|\<close>, and not less than \<open>- 1022\<close>.
\<close>

definition binary64 :: "rat \<Rightarrow> rat" where
  "binary64 x =
     (if x = 0 then 0
      else let a = \<bar>x\<bar>; q = pow2 (max (exponent a) (- 1022) - 52)
           in sgn x * of_int (round_half_even (a / q)) * q)"

subsection \<open>\<open>Number.prototype.toFixed(1)\<close>\<close>

definition digit :: "nat \<Rightarrow> char" where
  "digit d = ''0123456789'' ! d"

fun digits :: "nat \<Rightarrow> string" where
  "digits n = (if n < 10 then [digit n] else digits (n div 10) @ [digit (n mod 10)])"

declare digits.simps [simp del]

text \<open>
  \<open>x.toFixed(1)\<close> for a finite \<open>x\<close> below \<open>10^21\<close> in magnitude (above it the method
  switches to exponent notation, which no value of this program reaches): a minus sign
  for negative \<open>x\<close>, then the integer \<open>n\<close> for which \<open>n / 10\<close> is closest to \<open>|x|\<close>,
  the larger one on a tie, printed with a point before its last digit.
\<close>

definition toFixed1 :: "rat \<Rightarrow> string" where
  "toFixed1 x =
     (let n = nat \<lfloor>\<bar>x\<bar> * 10 + 1 / 2\<rfloor>
      in (if x < 0 then ''-'' else '''') @ digits (n div 10) @ ''.'' @ [digit (n mod 10)])"

subsection \<open>The render surface\<close>

text \<open>
  The 2D context is immediate mode: each call paints with the style set just before it.
  A drawing call is recorded together with the style it was painted with, and the
  surface is the list of calls since it was last cleared.
\<close>

datatype draw_op =
    DrawImage rat rat rat rat
  | StrokeRect string rat rat rat rat rat
  | FillRect string rat rat rat rat
  | FillText string string string rat rat

definition label_font :: string where
  "label_font = ''600 14px ui-sans-serif, system-ui, -apple-system, Segoe UI, Roboto, Arial''"

text \<open>The texts that the script assigns to \<open>statusEl.textContent\<close>, one constructor each.\<close>

datatype status_text =
    Html_text                \<comment> \<open>whatever the page shows before the script writes\<close>
  | Model_loaded             \<comment> \<open>'Model loaded. Click "Start Camera".'\<close>
  | Failed_to_load_model     \<comment> \<open>'Failed to load model.'\<close>
  | Still_loading_model      \<comment> \<open>'Still loading model...'\<close>
  | Camera_running           \<comment> \<open>'Camera running. Detecting...'\<close>
  | Could_not_access_camera  \<comment> \<open>'Could not access camera. Check permissions.'\<close>
  | Camera_stopped           \<comment> \<open>'Camera stopped.'\<close>

text \<open>
  The state of the page: the script's globals, the property \<open>drawBoxes.prev\<close>, the DOM
  properties the script reads and writes, the browser's table of pending animation
  frame callbacks, the promise of \<open>cocoSsd.load\<close>, and the calls of the script that
  are suspended at an \<open>await\<close>. A suspended call keeps no local variable that it
  reads again, so a count per \<open>await\<close> site describes them.
\<close>

record state =
  load_pending :: bool
  model :: bool
  stream :: "nat option"
  running :: bool
  rafId :: "nat option"
  drawBoxes_prev :: "rat option"
  statusEl :: status_text
  startBtn_disabled :: bool
  stopBtn_disabled :: bool
  showAll_checked :: bool
  video_srcObject :: "nat option"
  canvas_width :: nat
  canvas_height :: nat
  canvas :: "draw_op list"
  measureText :: "string \<Rightarrow> rat"
  frames :: "nat list"
  next_handle :: nat
  stopped_streams :: "nat list"
  console_errors :: nat
  awaiting_getUserMedia :: nat
  awaiting_play :: nat
  awaiting_detect :: nat

section \<open>\<open>drawBoxes\<close>\<close>

text \<open>The body of the \<open>for\<close> loop of \<open>drawBoxes\<close>: the box, the label chip, the label.\<close>

definition label :: "prediction \<Rightarrow> string" where
  "label p = pclass p @ '' '' @ toFixed1 (binary64 (score p * 100)) @ ''%''"

definition draw_prediction :: "(string \<Rightarrow> rat) \<Rightarrow> prediction \<Rightarrow> draw_op list" where
  "draw_prediction width_of p =
     (case bbox p of (x, y, w, h) \<Rightarrow>
        let isDanger = pclass p \<in> DANGEROUS;
            color = (if isDanger then ''#f87171'' else ''#7dd3fc'');
            thick = (if isDanger then 4 else 2);
            padX = 8;
            textW = width_of (label p);
            boxW = binary64 (textW + binary64 (padX * 2));
            boxH = 22
        in [StrokeRect color thick x y w h,
            FillRect ''rgba(0,0,0,0.6)'' x (max 0 (binary64 (y - boxH))) boxW boxH,
            FillText ''#ffffff'' label_font (label p) (binary64 (x + padX))
              (max 12 (binary64 (y - 6)))])"

text \<open>
  \<open>if (!drawBoxes.prev) drawBoxes.prev = now\<close>: the test holds for \<open>undefined\<close> and for
  the number \<open>0\<close>.
\<close>

definition prev_or_now :: "rat option \<Rightarrow> rat \<Rightarrow> rat" where
  "prev_or_now prev now = (case prev of None \<Rightarrow> now | Some t \<Rightarrow> if t = 0 then now else t)"

definition fps :: "rat option \<Rightarrow> rat \<Rightarrow> rat" where
  "fps prev now = binary64 (1000 / max 1 (binary64 (now - prev_or_now prev now)))"

text \<open>\<open>drawBoxes(preds)\<close>, with the value that \<open>performance.now()\<close> returns in it.\<close>

definition drawBoxes :: "prediction list \<Rightarrow> rat \<Rightarrow> state \<Rightarrow> state" where
  "drawBoxes preds now s =
     s\<lparr>canvas := canvas s @ concat (map (draw_prediction (measureText s)) preds) @
          [FillRect ''rgba(0,0,0,0.5)'' 8 8 110 26,
           FillText ''#e6ecf2'' label_font
             (''~'' @ toFixed1 (fps (drawBoxes_prev s) now) @ '' FPS'') 16 26],
       drawBoxes_prev := Some now\<rparr>"

section \<open>The animation frame table\<close>

text \<open>
  \<open>requestAnimationFrame(loop)\<close> registers the callback under a fresh non-zero handle
  and returns the handle; \<open>cancelAnimationFrame(id)\<close> removes the registration, if
  it is still there.
\<close>

definition requestAnimationFrame :: "state \<Rightarrow> nat \<times> state" where
  "requestAnimationFrame s =
     (next_handle s, s\<lparr>frames := frames s @ [next_handle s], next_handle := Suc (next_handle s)\<rparr>)"

definition cancelAnimationFrame :: "nat \<Rightarrow> state \<Rightarrow> state" where
  "cancelAnimationFrame h s = s\<lparr>frames := removeAll h (frames s)\<rparr>"

section \<open>\<open>loop\<close>\<close>

datatype 'a settled = Fulfilled 'a | Rejected

text \<open>
  \<open>loop()\<close> up to its \<open>await\<close>: the guard, the video frame drawn on the canvas, the
  call of \<open>model.detect(video)\<close>, which is left pending.
\<close>

definition loop :: "state \<Rightarrow> state" where
  "loop s =
     (if \<not> running s then s
      else s\<lparr>canvas := canvas s @
                [DrawImage 0 0 (of_nat (canvas_width s)) (of_nat (canvas_height s))],
             awaiting_detect := Suc (awaiting_detect s)\<rparr>)"

text \<open>
  \<open>loop()\<close> from its \<open>await\<close> to its end, once the detector call has settled:
  \<open>predictions\<close> stays \<open>[]\<close> and the error is logged when the call was rejected;
  then the filter, \<open>drawBoxes\<close> and \<open>rafId = requestAnimationFrame(loop)\<close>.
\<close>

definition loop_resumed :: "prediction list settled \<Rightarrow> rat \<Rightarrow> state \<Rightarrow> state" where
  "loop_resumed outcome now s =
     (let (predictions, s1) =
            (case outcome of
               Fulfilled ps \<Rightarrow> (ps, s)
             | Rejected \<Rightarrow> ([], s\<lparr>console_errors := Suc (console_errors s)\<rparr>));
          s2 = drawBoxes (filtered (showAll_checked s1) predictions) now s1;
          (h, s3) = requestAnimationFrame s2
      in s3\<lparr>rafId := Some h\<rparr>)"

section \<open>The click handlers\<close>

text \<open>The listener of \<open>startBtn\<close> up to its first \<open>await\<close>.\<close>

definition startBtn_click :: "state \<Rightarrow> state" where
  "startBtn_click s =
     (if \<not> model s then s\<lparr>statusEl := Still_loading_model\<rparr>
      else s\<lparr>awaiting_getUserMedia := Suc (awaiting_getUserMedia s)\<rparr>)"

text \<open>
  The listener of \<open>startBtn\<close> from \<open>await getUserMedia(...)\<close> to \<open>await video.play()\<close>;
  a rejection lands in the \<open>catch\<close> block.
\<close>

definition start_catch :: "state \<Rightarrow> state" where
  "start_catch s =
     s\<lparr>console_errors := Suc (console_errors s), statusEl := Could_not_access_camera\<rparr>"

definition start_got_stream :: "nat settled \<Rightarrow> state \<Rightarrow> state" where
  "start_got_stream outcome s =
     (case outcome of
        Fulfilled strm \<Rightarrow>
          s\<lparr>stream := Some strm, video_srcObject := Some strm,
            awaiting_play := Suc (awaiting_play s)\<rparr>
      | Rejected \<Rightarrow> start_catch s)"

text \<open>
  The listener of \<open>startBtn\<close> after \<open>await video.play()\<close>, with the video's
  \<open>videoWidth\<close> and \<open>videoHeight\<close>. Assigning the canvas dimensions resets its bitmap.
\<close>

definition start_playing :: "(nat \<times> nat) settled \<Rightarrow> state \<Rightarrow> state" where
  "start_playing outcome s =
     (case outcome of
        Fulfilled (videoWidth, videoHeight) \<Rightarrow>
          loop (s\<lparr>canvas_width := (if videoWidth = 0 then 1280 else videoWidth),
                  canvas_height := (if videoHeight = 0 then 720 else videoHeight),
                  canvas := [],
                  running := True,
                  startBtn_disabled := True,
                  stopBtn_disabled := False,
                  statusEl := Camera_running\<rparr>)
      | Rejected \<Rightarrow> start_catch s)"

text \<open>
  The listener of \<open>stopBtn\<close>. The test \<open>if (rafId)\<close> fails for \<open>null\<close> and for the
  number \<open>0\<close>.
\<close>

definition stopBtn_click :: "state \<Rightarrow> state" where
  "stopBtn_click s =
     (let s1 = s\<lparr>running := False\<rparr>;
          s2 = (case rafId s1 of
                  None \<Rightarrow> s1
                | Some h \<Rightarrow> if h = 0 then s1 else cancelAnimationFrame h s1);
          s3 = (case stream s2 of
                  None \<Rightarrow> s2
                | Some strm \<Rightarrow> s2\<lparr>stopped_streams := stopped_streams s2 @ [strm], stream := None\<rparr>)
      in s3\<lparr>canvas := [], startBtn_disabled := False, stopBtn_disabled := True,
            statusEl := Camera_stopped\<rparr>)"

section \<open>The event loop\<close>

text \<open>
  Everything the script does happens in reaction to the browser: the model promise
  settles, a button is clicked, a promise the script awaits settles, an animation frame
  callback fires, the checkbox is toggled. Each reaction runs to its next \<open>await\<close>
  without interruption. A disabled button dispatches no click; a promise settles only
  if a call is waiting for it; a callback fires only if it is registered.
\<close>

datatype event =
    ModelLoaded
  | ModelFailed
  | StartClick
  | StopClick
  | GetUserMediaSettled "nat settled"
  | PlaySettled "(nat \<times> nat) settled"
  | DetectSettled "prediction list settled" rat
  | FrameFired nat
  | ShowAllToggled bool

fun step :: "event \<Rightarrow> state \<Rightarrow> state" where
  "step ModelLoaded s =
     (if \<not> load_pending s then s
      else s\<lparr>load_pending := False, model := True, statusEl := Model_loaded\<rparr>)"
| "step ModelFailed s =
     (if \<not> load_pending s then s
      else s\<lparr>load_pending := False, console_errors := Suc (console_errors s),
             statusEl := Failed_to_load_model\<rparr>)"
| "step StartClick s = (if startBtn_disabled s then s else startBtn_click s)"
| "step StopClick s = (if stopBtn_disabled s then s else stopBtn_click s)"
| "step (GetUserMediaSettled outcome) s =
     (if awaiting_getUserMedia s = 0 then s
      else start_got_stream outcome (s\<lparr>awaiting_getUserMedia := awaiting_getUserMedia s - 1\<rparr>))"
| "step (PlaySettled outcome) s =
     (if awaiting_play s = 0 then s
      else start_playing outcome (s\<lparr>awaiting_play := awaiting_play s - 1\<rparr>))"
| "step (DetectSettled outcome now) s =
     (if awaiting_detect s = 0 then s
      else loop_resumed outcome now (s\<lparr>awaiting_detect := awaiting_detect s - 1\<rparr>))"
| "step (FrameFired h) s =
     (if h \<notin> set (frames s) then s else loop (s\<lparr>frames := removeAll h (frames s)\<rparr>))"
| "step (ShowAllToggled b) s = s\<lparr>showAll_checked := b\<rparr>"

fun run :: "event list \<Rightarrow> state \<Rightarrow> state" where
  "run [] s = s"
| "run (e # es) s = run es (step e s)"

text \<open>
  The page once the script has run to its end: the model is loading, nothing else is
  pending. What \<open>index.html\<close> and the browser decide is a parameter: whether the Stop
  button starts disabled, the size of the canvas, and the text metrics.
\<close>

definition page :: "bool \<Rightarrow> nat \<Rightarrow> nat \<Rightarrow> (string \<Rightarrow> rat) \<Rightarrow> state" where
  "page stop_disabled w h width_of =
     \<lparr>load_pending = True, model = False, stream = None, running = False, rafId = None,
      drawBoxes_prev = None,
      statusEl = Html_text, startBtn_disabled = False, stopBtn_disabled = stop_disabled,
      showAll_checked = False, video_srcObject = None,
      canvas_width = w, canvas_height = h, canvas = [], measureText = width_of,
      frames = [], next_handle = 1, stopped_streams = [], console_errors = 0,
      awaiting_getUserMedia = 0, awaiting_play = 0, awaiting_detect = 0\<rparr>"

text \<open>A page for evaluation: Stop disabled, a canvas of 300 by 150, 7 pixels a character.\<close>

definition fresh_page :: state where
  "fresh_page = page True 300 150 (\<lambda>t. 7 * of_nat (length t))"



text \<open>The number of frame cycles that are under way: suspended in the detector or registered.\<close>

definition cycles :: "state \<Rightarrow> nat" where
  "cycles s = awaiting_detect s + length (frames s)"


section \<open>Rounding to a double\<close>

lemma pow2_pos: "0 < pow2 k"
  by (simp add: pow2_def)

lemma pow2_nat: "pow2 (int n) = 2 ^ n"
  by (simp add: pow2_def)

lemma pow2_neg_nat: "pow2 (- int n) = 1 / 2 ^ n"
  by (cases n) (simp_all add: pow2_def nat_add_distrib)

lemma round_half_even_nonneg: "0 \<le> y \<Longrightarrow> 0 \<le> round_half_even y"
  by (auto simp: round_half_even_def Let_def)

lemma round_half_even_le:
  assumes "y \<le> of_int m"
  shows "round_half_even y \<le> m"
proof -
  have f: "\<lfloor>y\<rfloor> \<le> m" using assms by (simp add: floor_le_iff)
  show ?thesis
  proof (cases "\<lfloor>y\<rfloor> = m")
    case True
    then have "of_int m \<le> y" by (metis of_int_floor_le)
    with assms have "y = of_int m" by simp
    then show ?thesis by (simp add: round_half_even_def)
  next
    case False
    with f have "\<lfloor>y\<rfloor> + 1 \<le> m" by simp
    then show ?thesis using f by (auto simp: round_half_even_def Let_def)
  qed
qed

lemma round_half_even_nearest: "\<bar>of_int (round_half_even y) - y\<bar> \<le> 1 / 2"
proof -
  have "of_int \<lfloor>y\<rfloor> \<le> y" and "y < of_int \<lfloor>y\<rfloor> + 1" by linarith+
  then show ?thesis by (auto simp: round_half_even_def Let_def)
qed

text \<open>The bit length and the exponent are what their names say.\<close>

lemma bit_length_bounds: "0 < n \<Longrightarrow> 2 ^ (bit_length n - 1) \<le> n \<and> n < 2 ^ bit_length n"
proof (induction n rule: bit_length.induct)
  case (1 n)
  show ?case
  proof (cases "n div 2 = 0")
    case True
    with "1.prems" have "n = 1" by (simp add: div_eq_0_iff)
    then show ?thesis by (simp add: bit_length.simps)
  next
    case False
    then have pos: "0 < n div 2" by simp
    from "1.prems" have n0: "n \<noteq> 0" by simp
    from "1.IH" [OF n0 pos]
    have lo: "2 ^ (bit_length (n div 2) - 1) \<le> n div 2"
      and hi: "n div 2 < 2 ^ bit_length (n div 2)"
      by simp_all
    have bl: "bit_length n = Suc (bit_length (n div 2))"
      using n0 by (subst bit_length.simps) simp
    have b1: "0 < bit_length (n div 2)"
      using pos by (subst bit_length.simps) simp
    then obtain j where j: "bit_length (n div 2) = Suc j"
      by (cases "bit_length (n div 2)") auto
    have "2 * 2 ^ j \<le> 2 * (n div 2)" using lo j by simp
    also have "\<dots> \<le> n" by simp
    finally have L: "2 ^ (bit_length n - 1) \<le> n" by (simp add: bl j)
    have "n < 2 * (n div 2) + 2" by presburger
    also have "\<dots> \<le> 2 * 2 ^ bit_length (n div 2)" using hi by simp
    finally have "n < 2 ^ bit_length n" by (simp add: bl)
    with L show ?thesis by simp
  qed
qed

lemma exponent_bounds:
  assumes "0 < a"
  shows "pow2 (exponent a) \<le> a \<and> a < pow2 (exponent a + 1)"
proof (cases "1 \<le> a")
  case True
  define n where "n = nat \<lfloor>a\<rfloor>"
  have n1: "0 < n" using True by (simp add: n_def)
  then obtain j where j: "bit_length n = Suc j"
    using bit_length_bounds [of n] by (cases "bit_length n") auto
  have e: "exponent a = int j" using True by (simp add: exponent_def n_def [symmetric] j)
  from bit_length_bounds [OF n1] have lo: "2 ^ j \<le> n" and hi: "n < 2 ^ Suc j"
    by (simp_all add: j)
  have na: "of_nat n \<le> a" "a < of_nat n + 1"
    using True unfolding n_def by simp_all linarith+
  have "(2::rat) ^ j \<le> of_nat n" using lo by (metis of_nat_le_iff of_nat_numeral of_nat_power)
  with na have L: "2 ^ j \<le> a" by linarith
  have "n + 1 \<le> 2 ^ Suc j" using hi by simp
  then have "(of_nat (n + 1) :: rat) \<le> 2 ^ Suc j"
    by (metis of_nat_le_iff of_nat_numeral of_nat_power)
  then have "(of_nat n :: rat) + 1 \<le> 2 ^ Suc j" by (simp only: of_nat_add of_nat_1)
  with na have H: "a < 2 ^ Suc j" by linarith
  have "exponent a + 1 = int (Suc j)" by (simp add: e)
  then show ?thesis using L H by (simp only: e pow2_nat)
next
  case False
  then have a1: "a < 1" by simp
  define c where "c = nat (\<lceil>1 / a\<rceil> - 1)"
  have inv1: "1 < 1 / a" using assms a1 by simp
  then have c2: "2 \<le> \<lceil>1 / a\<rceil>" by linarith
  then have c1: "0 < c" by (simp add: c_def)
  have cc: "of_nat c < 1 / a" "1 / a \<le> of_nat c + 1"
    using c2 unfolding c_def by simp_all linarith+
  obtain j where j: "bit_length c = Suc j"
    using bit_length_bounds [OF c1] by (cases "bit_length c") auto
  from bit_length_bounds [OF c1] have lo: "2 ^ j \<le> c" and hi: "c < 2 ^ Suc j"
    by (simp_all add: j)
  have e: "exponent a = - int (Suc j)"
    using False by (simp add: exponent_def c_def [symmetric] j)
  have "(2::rat) ^ j \<le> of_nat c" using lo by (metis of_nat_le_iff of_nat_numeral of_nat_power)
  with cc have "2 ^ j < 1 / a" by linarith
  then have H: "a < 1 / 2 ^ j" using assms by (simp add: field_simps)
  have "c + 1 \<le> 2 ^ Suc j" using hi by simp
  then have "(of_nat (c + 1) :: rat) \<le> 2 ^ Suc j"
    by (metis of_nat_le_iff of_nat_numeral of_nat_power)
  then have "(of_nat c :: rat) + 1 \<le> 2 ^ Suc j" by (simp only: of_nat_add of_nat_1)
  with cc have "1 / a \<le> 2 ^ Suc j" by linarith
  then have L: "1 / 2 ^ Suc j \<le> a" using assms by (simp add: field_simps)
  have "exponent a + 1 = - int j" by (simp add: e)
  then show ?thesis using L H by (simp only: e pow2_neg_nat)
qed

text \<open>The rounded value is a nearest multiple of the spacing of the doubles around \<open>x\<close>.\<close>

lemma binary64_nearest:
  "\<bar>binary64 x - x\<bar> \<le> pow2 (max (exponent \<bar>x\<bar>) (- 1022) - 52) / 2"
proof (cases "x = 0")
  case True
  then show ?thesis using pow2_pos [of "max (exponent \<bar>x\<bar>) (- 1022) - 52"]
    by (simp add: binary64_def)
next
  case False
  define q where "q = pow2 (max (exponent \<bar>x\<bar>) (- 1022) - 52)"
  define n :: rat where "n = of_int (round_half_even (\<bar>x\<bar> / q))"
  have q: "0 < q" by (simp add: q_def pow2_pos)
  have b: "binary64 x = sgn x * n * q"
    using False unfolding binary64_def Let_def q_def [symmetric] n_def by simp
  have eq: "n * q - \<bar>x\<bar> = (n - \<bar>x\<bar> / q) * q"
    using q by (simp add: left_diff_distrib)
  have ab: "\<bar>n * q - \<bar>x\<bar>\<bar> = \<bar>n - \<bar>x\<bar> / q\<bar> * q"
    unfolding eq abs_mult using q by simp
  have "\<bar>n - \<bar>x\<bar> / q\<bar> \<le> 1 / 2" unfolding n_def by (rule round_half_even_nearest)
  then have "\<bar>n - \<bar>x\<bar> / q\<bar> * q \<le> 1 / 2 * q"
    using q by (intro mult_right_mono) simp_all
  then have near: "\<bar>n * q - \<bar>x\<bar>\<bar> \<le> q / 2" by (simp add: ab)
  have "\<bar>sgn x * n * q - x\<bar> = \<bar>n * q - \<bar>x\<bar>\<bar>"
  proof (cases "0 < x")
    case True
    then show ?thesis by simp
  next
    case False
    with \<open>x \<noteq> 0\<close> have "x < 0" by simp
    then have "sgn x * n * q - x = - (n * q - \<bar>x\<bar>)" by simp
    then show ?thesis by (simp only: abs_minus_cancel)
  qed
  with near show ?thesis by (simp add: b q_def)
qed

lemma binary64_nonneg: "0 \<le> x \<Longrightarrow> 0 \<le> binary64 x"
proof (cases "x = 0")
  case True
  then show ?thesis by (simp add: binary64_def)
next
  case False
  assume "0 \<le> x"
  with False have pos: "0 < x" by simp
  define q where "q = pow2 (max (exponent \<bar>x\<bar>) (- 1022) - 52)"
  have "0 < q" by (simp add: q_def pow2_pos)
  then have "0 \<le> \<bar>x\<bar> / q" by simp
  then have "0 \<le> round_half_even (\<bar>x\<bar> / q)" by (rule round_half_even_nonneg)
  then have "0 \<le> (of_int (round_half_even (\<bar>x\<bar> / q)) :: rat) * q"
    using \<open>0 < q\<close> by simp
  then show ?thesis
    unfolding binary64_def Let_def q_def [symmetric] using pos by (simp add: mult.assoc)
qed

lemma binary64_nonpos: "x \<le> 0 \<Longrightarrow> binary64 x \<le> 0"
proof (cases "x = 0")
  case True
  then show ?thesis by (simp add: binary64_def)
next
  case False
  assume "x \<le> 0"
  with False have neg: "x < 0" by simp
  define q where "q = pow2 (max (exponent \<bar>x\<bar>) (- 1022) - 52)"
  have "0 < q" by (simp add: q_def pow2_pos)
  then have "0 \<le> \<bar>x\<bar> / q" by simp
  then have "0 \<le> round_half_even (\<bar>x\<bar> / q)" by (rule round_half_even_nonneg)
  then have "0 \<le> (of_int (round_half_even (\<bar>x\<bar> / q)) :: rat) * q"
    using \<open>0 < q\<close> by simp
  then have "- (of_int (round_half_even (\<bar>x\<bar> / q)) * q) \<le> 0" by simp
  then show ?thesis
    unfolding binary64_def Let_def q_def [symmetric] using neg by (simp add: mult.assoc)
qed

lemma bit_length_1: "bit_length (Suc 0) = Suc 0"
  by (simp add: bit_length.simps)

lemma exponent_le_0: "0 < a \<Longrightarrow> a \<le> 1 \<Longrightarrow> exponent a \<le> 0"
  by (cases "a = 1") (auto simp: exponent_def bit_length_1)

text \<open>Rounding does not cross the double \<open>1\<close>.\<close>

lemma binary64_le_1:
  assumes "x \<le> 1"
  shows "binary64 x \<le> 1"
proof (cases "x \<le> 0")
  case True
  then have "binary64 x \<le> 0" by (rule binary64_nonpos)
  then show ?thesis by simp
next
  case False
  then have pos: "0 < x" by simp
  define k where "k = max (exponent \<bar>x\<bar>) (- 1022) - 52"
  define m where "m = nat (- k)"
  have "exponent \<bar>x\<bar> \<le> 0" using pos assms by (simp add: exponent_le_0)
  then have "k < 0" by (simp add: k_def)
  then have q: "pow2 k = 1 / 2 ^ m" by (simp add: pow2_def m_def)
  have "\<bar>x\<bar> / pow2 k = x * 2 ^ m" using pos by (simp add: q)
  also have "\<dots> \<le> of_int (2 ^ m)" using assms by simp
  finally have "round_half_even (\<bar>x\<bar> / pow2 k) \<le> 2 ^ m" by (rule round_half_even_le)
  then have "(of_int (round_half_even (\<bar>x\<bar> / pow2 k)) :: rat) \<le> 2 ^ m"
    by (metis of_int_le_iff of_int_numeral of_int_power)
  then have "of_int (round_half_even (\<bar>x\<bar> / pow2 k)) * pow2 k \<le> 1"
    by (simp add: q field_simps)
  then show ?thesis
    unfolding binary64_def Let_def k_def [symmetric] using pos by (simp add: mult.assoc)
qed

text \<open>The doubles that the evaluations below meet.\<close>

lemma binary64_0: "binary64 0 = 0"
  by (simp add: binary64_def)

lemma binary64_values:
  "binary64 2 = 2" "binary64 4 = 4" "binary64 16 = 16" "binary64 18 = 18"
  "binary64 78 = 78" "binary64 93 = 93" "binary64 94 = 94" "binary64 100 = 100"
  "binary64 108 = 108" "binary64 500 = 500" "binary64 1000 = 1000"
  "binary64 (- 12) = - 12"
  by code_simp+

lemma binary64_percent:
  "binary64 (binary64 (92 / 100) * 100) = 92"
  "binary64 (binary64 (81 / 100) * 100) = 81"
  by code_simp+

section \<open>Evaluating \<open>toFixed1\<close>\<close>

lemma digits_less: "n < 10 \<Longrightarrow> digits n = [digit n]"
  by (subst digits.simps) simp

lemma digits_step: "10 \<le> n \<Longrightarrow> digits n = digits (n div 10) @ [digit (n mod 10)]"
  by (subst digits.simps) simp

lemma floor_rat_numeral_div: "\<lfloor>numeral a / numeral b :: rat\<rfloor> = numeral a div numeral b"
  using floor_divide_of_int_eq [of "numeral a" "numeral b", where ?'a = rat] by simp

lemmas toFixed1_eval =
  toFixed1_def Let_def digits_less digits_step digit_def floor_rat_numeral_div

lemma toFixed1_2: "toFixed1 2 = ''2.0''"
  by (simp add: toFixed1_eval)

lemma toFixed1_1000: "toFixed1 1000 = ''1000.0''"
  by (simp add: toFixed1_eval)

lemma toFixed1_92: "toFixed1 92 = ''92.0''"
  by (simp add: toFixed1_eval)

lemma toFixed1_81: "toFixed1 81 = ''81.0''"
  by (simp add: toFixed1_eval)

lemma digit_decimal: "d < 10 \<Longrightarrow> digit d \<in> set ''0123456789''"
  unfolding digit_def by (rule nth_mem) simp

lemma digits_decimal: "set (digits n) \<subseteq> set ''0123456789''"
proof (induction n rule: digits.induct)
  case (1 n)
  show ?case
  proof (cases "n < 10")
    case True
    then show ?thesis using digit_decimal [of n] by (simp add: digits_less)
  next
    case False
    then have "set (digits (n div 10)) \<subseteq> set ''0123456789''" using 1 by simp
    moreover have "digit (n mod 10) \<in> set ''0123456789''" by (rule digit_decimal) simp
    ultimately show ?thesis using False by (simp add: digits_step)
  qed
qed

text \<open>The integer that \<open>toFixed1\<close> prints is within half a tenth of the number.\<close>

lemma round_tenths:
  fixes x :: rat
  shows "\<bar>of_nat (nat \<lfloor>\<bar>x\<bar> * 10 + 1 / 2\<rfloor>) / 10 - \<bar>x\<bar>\<bar> \<le> 1 / 20"
proof -
  define y where "y = \<bar>x\<bar>"
  define k :: rat where "k = of_int \<lfloor>y * 10 + 1 / 2\<rfloor>"
  have "0 \<le> y" by (simp add: y_def)
  then have "0 \<le> \<lfloor>y * 10 + 1 / 2\<rfloor>" by simp
  then have nat_k: "(of_nat (nat \<lfloor>y * 10 + 1 / 2\<rfloor>) :: rat) = k" by (simp add: k_def)
  have "k \<le> y * 10 + 1 / 2" and "y * 10 + 1 / 2 < k + 1"
    unfolding k_def by linarith+
  then have "\<bar>k / 10 - y\<bar> \<le> 1 / 20" by linarith
  then show ?thesis using nat_k by (simp add: y_def)
qed

lemma toFixed1_shape:
  "\<exists>n. toFixed1 x =
          (if x < 0 then ''-'' else []) @ digits (n div 10) @ ''.'' @ [digit (n mod 10)]
       \<and> \<bar>of_nat n / 10 - \<bar>x\<bar>\<bar> \<le> 1 / 20"
  using round_tenths [of x] by (auto simp: toFixed1_def Let_def)

text \<open>The score written \<open>0.92\<close> in a script is the double nearest to \<open>92 / 100\<close>.\<close>

lemma label_knife:
  assumes "pclass p = ''knife''" and "score p = binary64 (92 / 100)"
  shows "label p = ''knife 92.0%''"
  by (simp only: label_def assms binary64_percent toFixed1_92) simp

lemma label_person:
  assumes "pclass p = ''person''" and "score p = binary64 (81 / 100)"
  shows "label p = ''person 81.0%''"
  by (simp only: label_def assms binary64_percent toFixed1_81) simp

text \<open>A delta of at most one millisecond is clamped to one.\<close>

lemma fps_first: "fps None now = 1000"
  by (simp add: fps_def prev_or_now_def binary64_0 binary64_values)

lemma fps_clamped:
  assumes "now - prev_or_now prev now \<le> 1"
  shows "fps prev now = 1000"
proof -
  have "binary64 (now - prev_or_now prev now) \<le> 1" using assms by (rule binary64_le_1)
  then have "max 1 (binary64 (now - prev_or_now prev now)) = 1" by (simp add: max_def)
  then show ?thesis by (simp add: fps_def binary64_values)
qed

lemma fps_nonneg: "0 \<le> fps prev now"
  unfolding fps_def by (rule binary64_nonneg) (simp add: max_def)

section \<open>What \<open>drawBoxes\<close> leaves on the surface\<close>

lemma canvas_drawBoxes:
  "canvas (drawBoxes preds now s) =
     canvas s @ concat (map (draw_prediction (measureText s)) preds) @
       [FillRect ''rgba(0,0,0,0.5)'' 8 8 110 26,
        FillText ''#e6ecf2'' label_font
          (''~'' @ toFixed1 (fps (drawBoxes_prev s) now) @ '' FPS'') 16 26]"
  by (simp add: drawBoxes_def)

lemma last_canvas_drawBoxes:
  "last (canvas (drawBoxes preds now s)) =
     FillText ''#e6ecf2'' label_font
       (''~'' @ toFixed1 (fps (drawBoxes_prev s) now) @ '' FPS'') 16 26"
  by (simp add: canvas_drawBoxes)

lemma prev_drawBoxes: "drawBoxes_prev (drawBoxes preds now s) = Some now"
  by (simp add: drawBoxes_def)

section \<open>Evaluating runs\<close>

lemmas handler_defs =
  startBtn_click_def start_got_stream_def start_playing_def start_catch_def stopBtn_click_def
  loop_def loop_resumed_def drawBoxes_def requestAnimationFrame_def cancelAnimationFrame_def

lemmas trace_eval = fresh_page_def page_def handler_defs filtered_def Let_def

lemma stopped_trace:
  "run [ModelLoaded, StartClick, GetUserMediaSettled (Fulfilled 7),
        PlaySettled (Fulfilled (640, 480)), StopClick] fresh_page =
   fresh_page\<lparr>load_pending := False, model := True, statusEl := Camera_stopped,
     video_srcObject := Some 7, canvas_width := 640, canvas_height := 480,
     stopped_streams := [7], awaiting_detect := 1\<rparr>"
  by (simp add: trace_eval)

section \<open>The session invariant is kept by every reaction\<close>











section \<open>The frame loop and Stop\<close>

text \<open>
  Claim C1, as the code has it. When Stop was clicked while a detector call was pending
  (\<open>running\<close> is false and a call of \<open>loop\<close> is suspended), the suspended call, once the
  detector settles, does register one more frame callback and stores its handle in
  \<open>rafId\<close>. When that callback fires with \<open>running\<close> still false it only leaves the
  table: it draws nothing, calls no detector and registers nothing, so the table is
  back to what it was and the loop has ended.
\<close>

theorem stop_during_detection:
  assumes "0 < awaiting_detect s" and "\<not> running s"
  shows "let s' = step (DetectSettled outcome now) s; h = next_handle s in
           frames s' = frames s @ [h] \<and> rafId s' = Some h \<and> \<not> running s'
         \<and> step (FrameFired h) s' = s'\<lparr>frames := removeAll h (frames s')\<rparr>
         \<and> (h \<notin> set (frames s) \<longrightarrow> frames (step (FrameFired h) s') = frames s)"
  using assms
  by (cases outcome)
    (simp_all add: loop_resumed_def drawBoxes_def requestAnimationFrame_def loop_def Let_def)

theorem stop_during_detection_witness:
  "0 < awaiting_detect (run [ModelLoaded, StartClick, GetUserMediaSettled (Fulfilled 7),
        PlaySettled (Fulfilled (640, 480)), StopClick] fresh_page)
   \<and> \<not> running (run [ModelLoaded, StartClick, GetUserMediaSettled (Fulfilled 7),
        PlaySettled (Fulfilled (640, 480)), StopClick] fresh_page)
   \<and> frames (run [ModelLoaded, StartClick, GetUserMediaSettled (Fulfilled 7),
        PlaySettled (Fulfilled (640, 480)), StopClick,
        DetectSettled (Fulfilled []) 1016, FrameFired 1] fresh_page) = []"
proof -
  let ?S = "run [ModelLoaded, StartClick, GetUserMediaSettled (Fulfilled 7),
        PlaySettled (Fulfilled (640, 480)), StopClick] fresh_page"
  have a: "0 < awaiting_detect ?S" and b: "\<not> running ?S"
    and c: "next_handle ?S = 1" and d: "frames ?S = []"
    unfolding stopped_trace by (simp_all add: fresh_page_def page_def)
  note T = stop_during_detection [OF a b, of "Fulfilled []" 1016, unfolded Let_def c d]
  have "frames (step (FrameFired 1) (step (DetectSettled (Fulfilled []) 1016) ?S)) = []"
    using T [THEN conjunct2, THEN conjunct2, THEN conjunct2, THEN conjunct2]
    by (simp add: trace_eval)
  then show ?thesis using a b by (simp add: trace_eval)
qed

text \<open>
  The claim as the specification words it fails: the camera is started, Stop is clicked
  while the first detector call is pending, and when that call resolves the table of
  frame callbacks, empty after Stop, holds the new callback \<open>1\<close>.
\<close>

theorem stop_during_detection_counterexample:
  "running (run [ModelLoaded, StartClick, GetUserMediaSettled (Fulfilled 7),
        PlaySettled (Fulfilled (640, 480))] fresh_page)
   \<and> awaiting_detect (run [ModelLoaded, StartClick, GetUserMediaSettled (Fulfilled 7),
        PlaySettled (Fulfilled (640, 480))] fresh_page) = 1
   \<and> \<not> running (run [ModelLoaded, StartClick, GetUserMediaSettled (Fulfilled 7),
        PlaySettled (Fulfilled (640, 480)), StopClick] fresh_page)
   \<and> frames (run [ModelLoaded, StartClick, GetUserMediaSettled (Fulfilled 7),
        PlaySettled (Fulfilled (640, 480)), StopClick] fresh_page) = []
   \<and> frames (run [ModelLoaded, StartClick, GetUserMediaSettled (Fulfilled 7),
        PlaySettled (Fulfilled (640, 480)), StopClick,
        DetectSettled (Fulfilled []) 1016] fresh_page) = [1]"
  by (simp add: trace_eval)

text \<open>
  Beyond what the theorem above covers: when Start is clicked again and playback begins
  while the cycle that Stop left behind is still suspended in the detector, \<open>running\<close>
  is set again and two frame cycles are under way.
\<close>

lemma restart_beside_stale_cycle:
  "running (run [ModelLoaded, StartClick, GetUserMediaSettled (Fulfilled 7),
        PlaySettled (Fulfilled (640, 480)), StopClick, StartClick,
        GetUserMediaSettled (Fulfilled 8), PlaySettled (Fulfilled (640, 480))] fresh_page)
   \<and> cycles (run [ModelLoaded, StartClick, GetUserMediaSettled (Fulfilled 7),
        PlaySettled (Fulfilled (640, 480)), StopClick, StartClick,
        GetUserMediaSettled (Fulfilled 8), PlaySettled (Fulfilled (640, 480))] fresh_page) = 2"
  by (simp add: trace_eval cycles_def)

section \<open>The session state\<close>




section \<open>Stop while idle\<close>







text \<open>
  What decides the claim is the first state of the Stop button, which \<open>index.html\<close>
  sets: were the button enabled at first, a click on it in the idle page would run the
  listener, which writes the status 'Camera stopped.'.
\<close>

lemma stop_enabled_at_first:
  "statusEl (run [ModelLoaded] (page False w h m)) = Model_loaded
   \<and> statusEl (run [ModelLoaded, StopClick] (page False w h m)) = Camera_stopped"
  by (simp add: page_def stopBtn_click_def Let_def)

section \<open>The filter\<close>

text \<open>
  Claim C4. With the checkbox unchecked, the array handed to \<open>drawBoxes\<close> is the
  prediction array restricted to the classes knife, scissors and baseball bat: it is
  the order-preserving filter of \<open>P\<close> by that set, so every element it holds has such a
  class, every element of \<open>P\<close> with such a class is in it, and it is a subsequence
  of \<open>P\<close>.
\<close>

theorem filtered_dangerousOnly:
  "filtered False P = filter (\<lambda>p. pclass p \<in> {''knife'', ''scissors'', ''baseball bat''}) P
   \<and> (\<forall>p \<in> set (filtered False P). pclass p \<in> {''knife'', ''scissors'', ''baseball bat''})
   \<and> (\<forall>p \<in> set P. pclass p \<in> {''knife'', ''scissors'', ''baseball bat''}
         \<longrightarrow> p \<in> set (filtered False P))
   \<and> subseq (filtered False P) P"
  by (simp add: filtered_def DANGEROUS_def)

theorem filtered_dangerousOnly_witness:
  "filtered False
     [\<lparr>pclass = ''knife'', score = 92 / 100, bbox = (10, 10, 50, 60)\<rparr>,
      \<lparr>pclass = ''person'', score = 81 / 100, bbox = (100, 100, 40, 80)\<rparr>]
   = [\<lparr>pclass = ''knife'', score = 92 / 100, bbox = (10, 10, 50, 60)\<rparr>]"
  using filtered_dangerousOnly
    [of "[\<lparr>pclass = ''knife'', score = 92 / 100, bbox = (10, 10, 50, 60)\<rparr>,
          \<lparr>pclass = ''person'', score = 81 / 100, bbox = (100, 100, 40, 80)\<rparr>]"]
  by simp

text \<open>
  Claim C5. With the checkbox checked the prediction array is passed on unchanged, and
  in either position of the checkbox filtering twice is filtering once.
\<close>

theorem filtered_showAll_identity_idempotent:
  "filtered True P = P \<and> filtered m (filtered m P) = filtered m P"
  by (simp add: filtered_def)

section \<open>Start before the model is there\<close>

text \<open>
  Claim C6. While \<open>model\<close> is still null the Start listener changes nothing but the
  status text, which becomes 'Still loading model...': \<open>running\<close> stays as it is, no
  stream is requested or stored, no frame callback is registered.
\<close>

theorem start_rejected_while_model_not_loaded:
  assumes "\<not> model s"
  shows "startBtn_click s = s\<lparr>statusEl := Still_loading_model\<rparr>
         \<and> running (startBtn_click s) = running s
         \<and> stream (startBtn_click s) = stream s
         \<and> rafId (startBtn_click s) = rafId s
         \<and> frames (startBtn_click s) = frames s
         \<and> awaiting_getUserMedia (startBtn_click s) = awaiting_getUserMedia s
         \<and> statusEl (startBtn_click s) = Still_loading_model
         \<and> (\<not> startBtn_disabled s \<longrightarrow> step StartClick s = s\<lparr>statusEl := Still_loading_model\<rparr>)"
  using assms by (simp add: startBtn_click_def)

theorem start_rejected_while_model_not_loaded_witness:
  "\<not> model fresh_page \<and> \<not> startBtn_disabled fresh_page \<and> \<not> running fresh_page
   \<and> stream fresh_page = None \<and> frames fresh_page = []
   \<and> step StartClick fresh_page = fresh_page\<lparr>statusEl := Still_loading_model\<rparr>"
  using start_rejected_while_model_not_loaded [of fresh_page]
  by (simp add: fresh_page_def page_def)

section \<open>A detector call that fails\<close>

text \<open>
  Claim C7. When the detector call of a frame cycle is rejected while the camera runs,
  the cycle ends as it would on an empty prediction array, apart from the logged
  error: no box is drawn, only the FPS indicator; \<open>running\<close>, the stream and the status
  stay as they are; the next frame callback is registered; and when it fires a new
  detector call is made.
\<close>

theorem detector_failure_recovered:
  assumes "running s" and "0 < awaiting_detect s"
  shows "let s' = step (DetectSettled Rejected now) s; h = next_handle s in
           s' = (step (DetectSettled (Fulfilled []) now) s)
                  \<lparr>console_errors := Suc (console_errors s)\<rparr>
         \<and> canvas s' = canvas s @
              [FillRect ''rgba(0,0,0,0.5)'' 8 8 110 26,
               FillText ''#e6ecf2'' label_font
                 (''~'' @ toFixed1 (fps (drawBoxes_prev s) now) @ '' FPS'') 16 26]
         \<and> running s' \<and> stream s' = stream s \<and> statusEl s' = statusEl s
         \<and> frames s' = frames s @ [h] \<and> rafId s' = Some h
         \<and> awaiting_detect s' = awaiting_detect s - 1
         \<and> running (step (FrameFired h) s')
         \<and> awaiting_detect (step (FrameFired h) s') = awaiting_detect s"
  using assms
  by (simp add: loop_resumed_def drawBoxes_def requestAnimationFrame_def loop_def Let_def
      filtered_def)

theorem detector_failure_recovered_witness:
  "running (run [ModelLoaded, StartClick, GetUserMediaSettled (Fulfilled 7),
        PlaySettled (Fulfilled (640, 480))] fresh_page)
   \<and> 0 < awaiting_detect (run [ModelLoaded, StartClick, GetUserMediaSettled (Fulfilled 7),
        PlaySettled (Fulfilled (640, 480))] fresh_page)
   \<and> frames (run [ModelLoaded, StartClick, GetUserMediaSettled (Fulfilled 7),
        PlaySettled (Fulfilled (640, 480)), DetectSettled Rejected 1000] fresh_page) = [1]
   \<and> awaiting_detect (run [ModelLoaded, StartClick, GetUserMediaSettled (Fulfilled 7),
        PlaySettled (Fulfilled (640, 480)), DetectSettled Rejected 1000,
        FrameFired 1] fresh_page) = 1"
  using detector_failure_recovered
    [of "run [ModelLoaded, StartClick, GetUserMediaSettled (Fulfilled 7),
        PlaySettled (Fulfilled (640, 480))] fresh_page" 1000]
  by (simp add: trace_eval)

section \<open>The FPS indicator\<close>

text \<open>
  Claim C8. After a call of \<open>drawBoxes\<close> at the clock reading \<open>t1\<close> (not zero: the clock
  counts from the moment the page was opened), the next call, at \<open>t2\<close>, ends by writing
  the indicator \<open>~F FPS\<close>, where \<open>F\<close> is \<open>1000 / max 1 (t2 - t1)\<close>, the difference and the
  quotient each rounded to a double, printed by \<open>toFixed(1)\<close>: the number printed has
  one decimal digit and is within 0.05 of that quotient. It is the reciprocal of this
  one delta in seconds, the delta being taken as at least one millisecond, with no
  smoothing over earlier calls. Two calls 500 ms apart write \<open>~2.0 FPS\<close>.
\<close>

theorem fps_indicator:
  assumes "t1 \<noteq> 0"
  shows "last (canvas (drawBoxes preds2 t2 (drawBoxes preds1 t1 s))) =
           FillText ''#e6ecf2'' label_font
             (''~'' @ toFixed1 (binary64 (1000 / max 1 (binary64 (t2 - t1)))) @ '' FPS'') 16 26
         \<and> (\<exists>n. toFixed1 (binary64 (1000 / max 1 (binary64 (t2 - t1)))) =
                  digits (n div 10) @ ''.'' @ [digit (n mod 10)]
                \<and> \<bar>of_nat n / 10 - binary64 (1000 / max 1 (binary64 (t2 - t1)))\<bar> \<le> 1 / 20)
         \<and> (t2 - t1 = 500 \<longrightarrow>
              last (canvas (drawBoxes preds2 t2 (drawBoxes preds1 t1 s))) =
                FillText ''#e6ecf2'' label_font ''~2.0 FPS'' 16 26)"
proof (intro conjI)
  have f: "fps (drawBoxes_prev (drawBoxes preds1 t1 s)) t2 =
      binary64 (1000 / max 1 (binary64 (t2 - t1)))"
    using assms by (simp add: prev_drawBoxes fps_def prev_or_now_def)
  then show *: "last (canvas (drawBoxes preds2 t2 (drawBoxes preds1 t1 s))) =
           FillText ''#e6ecf2'' label_font
             (''~'' @ toFixed1 (binary64 (1000 / max 1 (binary64 (t2 - t1)))) @ '' FPS'') 16 26"
    by (simp add: last_canvas_drawBoxes)
  have "0 \<le> binary64 (1000 / max 1 (binary64 (t2 - t1)))"
    using fps_nonneg [of "drawBoxes_prev (drawBoxes preds1 t1 s)" t2] by (simp only: f)
  then show "\<exists>n. toFixed1 (binary64 (1000 / max 1 (binary64 (t2 - t1)))) =
                  digits (n div 10) @ ''.'' @ [digit (n mod 10)]
                \<and> \<bar>of_nat n / 10 - binary64 (1000 / max 1 (binary64 (t2 - t1)))\<bar> \<le> 1 / 20"
    using toFixed1_shape [of "binary64 (1000 / max 1 (binary64 (t2 - t1)))"] by auto
  have "t2 - t1 = 500 \<Longrightarrow> toFixed1 (binary64 (1000 / max 1 (binary64 (t2 - t1)))) = ''2.0''"
    by (simp add: binary64_values toFixed1_2)
  with * show "t2 - t1 = 500 \<longrightarrow>
              last (canvas (drawBoxes preds2 t2 (drawBoxes preds1 t1 s))) =
                FillText ''#e6ecf2'' label_font ''~2.0 FPS'' 16 26"
    by simp
qed

theorem fps_indicator_witness:
  "(1000::rat) \<noteq> 0 \<and> (1500::rat) - 1000 = 500 \<and>
   last (canvas (drawBoxes [] 1500 (drawBoxes [] 1000 fresh_page))) =
     FillText ''#e6ecf2'' label_font ''~2.0 FPS'' 16 26"
proof -
  have a: "(1000::rat) \<noteq> 0" and b: "(1500::rat) - 1000 = 500" by simp_all
  note T = fps_indicator [OF a, of "[]" 1500 "[]" fresh_page]
  from T [THEN conjunct2, THEN conjunct2] b
  have "last (canvas (drawBoxes [] 1500 (drawBoxes [] 1000 fresh_page))) =
     FillText ''#e6ecf2'' label_font ''~2.0 FPS'' 16 26"
    by blast
  with a b show ?thesis by blast
qed

text \<open>
  Claim C10. On the first call of \<open>drawBoxes\<close> the property \<open>drawBoxes.prev\<close> is
  undefined and takes the current clock reading, so the delta is \<open>0\<close>, the divisor is
  \<open>max 1 0 = 1\<close> and the indicator reads \<open>~1000.0 FPS\<close>. The same indicator is written
  whenever the clock reading is at most one millisecond past the stored one.
\<close>

theorem fps_first_call_and_clamp:
  "prev_or_now None now = now \<and> fps None now = 1000
   \<and> (drawBoxes_prev s = None \<longrightarrow>
        drawBoxes_prev (drawBoxes preds now s) = Some now \<and>
        last (canvas (drawBoxes preds now s)) =
          FillText ''#e6ecf2'' label_font ''~1000.0 FPS'' 16 26)
   \<and> (drawBoxes_prev s = Some t \<and> now - t \<le> 1 \<longrightarrow>
        fps (drawBoxes_prev s) now = 1000 \<and>
        last (canvas (drawBoxes preds now s)) =
          FillText ''#e6ecf2'' label_font ''~1000.0 FPS'' 16 26)"
proof -
  have "fps (Some t) now = 1000" if "now - t \<le> 1"
    using that by (intro fps_clamped) (simp add: prev_or_now_def)
  then show ?thesis
    by (auto simp: last_canvas_drawBoxes prev_drawBoxes fps_first toFixed1_1000
        prev_or_now_def)
qed

theorem fps_first_call_and_clamp_witness:
  "drawBoxes_prev fresh_page = None
   \<and> last (canvas (drawBoxes [] 1000 fresh_page)) =
       FillText ''#e6ecf2'' label_font ''~1000.0 FPS'' 16 26
   \<and> drawBoxes_prev (drawBoxes [] 1000 fresh_page) = Some 1000
   \<and> (1000 + 1 / 2 :: rat) - 1000 \<le> 1
   \<and> last (canvas (drawBoxes [] (1000 + 1 / 2) (drawBoxes [] 1000 fresh_page))) =
       FillText ''#e6ecf2'' label_font ''~1000.0 FPS'' 16 26"
  using fps_first_call_and_clamp [of 1000 fresh_page "[]" 0]
    fps_first_call_and_clamp [of "1000 + 1 / 2" "drawBoxes [] 1000 fresh_page" "[]" 1000]
  by (simp add: fresh_page_def page_def prev_drawBoxes)

section \<open>The label chip\<close>

text \<open>
  Claim C9, as the code has it. For every prediction \<open>p\<close> handed to \<open>drawBoxes\<close>, with
  box \<open>(x, y, w, h)\<close>, the surface receives, one after the other, the box, a filled chip
  22 pixels high and on it the label. The top of the chip is at \<open>max 0 (y - 22)\<close>, the
  difference rounded to a double: for \<open>y\<close> of 22 or more that is \<open>y - 22\<close>, one chip
  height above the top edge of the box; for \<open>y\<close> of 22 or less it is \<open>0\<close>, the top of the
  surface, and for \<open>y\<close> below 22 the chip reaches below the top edge of the box. The
  label is the class name, a space, the score times 100 printed with exactly one
  decimal digit after the point and within 0.05 of that product, and a percent sign.
  Class knife with score 0.92 is labelled \<open>knife 92.0%\<close>.
\<close>

theorem drawBoxes_label_chip:
  assumes "p \<in> set preds" and "bbox p = (x, y, w, h)"
  shows "sublist
           [StrokeRect (if pclass p \<in> DANGEROUS then ''#f87171'' else ''#7dd3fc'')
              (if pclass p \<in> DANGEROUS then 4 else 2) x y w h,
            FillRect ''rgba(0,0,0,0.6)'' x (max 0 (binary64 (y - 22)))
              (binary64 (measureText s (label p) + 16)) 22,
            FillText ''#ffffff'' label_font (label p) (binary64 (x + 8))
              (max 12 (binary64 (y - 6)))]
           (canvas (drawBoxes preds now s))
         \<and> (22 \<le> y \<longrightarrow> max 0 (binary64 (y - 22)) = binary64 (y - 22))
         \<and> (y \<le> 22 \<longrightarrow> max 0 (binary64 (y - 22)) = 0)
         \<and> (y < 22 \<longrightarrow> y < max 0 (binary64 (y - 22)) + 22)
         \<and> (\<exists>n. label p =
                  pclass p @ '' '' @ (if binary64 (score p * 100) < 0 then ''-'' else []) @
                  digits (n div 10) @ ''.'' @ [digit (n mod 10)] @ ''%''
                \<and> set (digits (n div 10)) \<subseteq> set ''0123456789''
                \<and> digit (n mod 10) \<in> set ''0123456789''
                \<and> \<bar>of_nat n / 10 - \<bar>binary64 (score p * 100)\<bar>\<bar> \<le> 1 / 20)
         \<and> (pclass p = ''knife'' \<and> score p = binary64 (92 / 100) \<longrightarrow>
              label p = ''knife 92.0%'')"
proof (intro conjI)
  from assms(1) obtain ps qs where preds: "preds = ps @ p # qs"
    by (auto dest: split_list)
  let ?f = "draw_prediction (measureText s)"
  let ?ops =
    "[StrokeRect (if pclass p \<in> DANGEROUS then ''#f87171'' else ''#7dd3fc'')
        (if pclass p \<in> DANGEROUS then 4 else 2) x y w h,
      FillRect ''rgba(0,0,0,0.6)'' x (max 0 (binary64 (y - 22)))
        (binary64 (measureText s (label p) + 16)) 22,
      FillText ''#ffffff'' label_font (label p) (binary64 (x + 8))
        (max 12 (binary64 (y - 6)))]"
  have fp: "?f p = ?ops"
    using assms(2) by (simp add: draw_prediction_def Let_def binary64_values)
  have "canvas (drawBoxes preds now s) =
          (canvas s @ concat (map ?f ps)) @ ?ops @
          (concat (map ?f qs) @
           [FillRect ''rgba(0,0,0,0.5)'' 8 8 110 26,
            FillText ''#e6ecf2'' label_font
              (''~'' @ toFixed1 (fps (drawBoxes_prev s) now) @ '' FPS'') 16 26])"
    unfolding canvas_drawBoxes preds by (simp only: fp map_append list.map concat_append
        concat.simps append_assoc)
  then show "sublist ?ops (canvas (drawBoxes preds now s))"
    unfolding sublist_def by blast
next
  show "22 \<le> y \<longrightarrow> max 0 (binary64 (y - 22)) = binary64 (y - 22)"
    using binary64_nonneg [of "y - 22"] by (auto simp: max_def)
next
  show le: "y \<le> 22 \<longrightarrow> max 0 (binary64 (y - 22)) = 0"
    using binary64_nonpos [of "y - 22"] by (auto simp: max_def)
  then show "y < 22 \<longrightarrow> y < max 0 (binary64 (y - 22)) + 22"
    by simp
next
  obtain n where n: "toFixed1 (binary64 (score p * 100)) =
        (if binary64 (score p * 100) < 0 then ''-'' else []) @ digits (n div 10) @ ''.'' @
        [digit (n mod 10)]"
      "\<bar>of_nat n / 10 - \<bar>binary64 (score p * 100)\<bar>\<bar> \<le> 1 / 20"
    using toFixed1_shape [of "binary64 (score p * 100)"] by blast
  have "digit (n mod 10) \<in> set ''0123456789''" by (rule digit_decimal) simp
  with n digits_decimal [of "n div 10"]
  show "\<exists>n. label p =
                  pclass p @ '' '' @ (if binary64 (score p * 100) < 0 then ''-'' else []) @
                  digits (n div 10) @ ''.'' @ [digit (n mod 10)] @ ''%''
                \<and> set (digits (n div 10)) \<subseteq> set ''0123456789''
                \<and> digit (n mod 10) \<in> set ''0123456789''
                \<and> \<bar>of_nat n / 10 - \<bar>binary64 (score p * 100)\<bar>\<bar> \<le> 1 / 20"
    unfolding label_def by (intro exI [of _ n]) simp
next
  show "pclass p = ''knife'' \<and> score p = binary64 (92 / 100) \<longrightarrow> label p = ''knife 92.0%''"
    using label_knife by blast
qed

lemma knife_drawn:
  assumes "pclass p = ''knife''" and "score p = binary64 (92 / 100)"
    and "bbox p = (10, 10, 50, 60)"
  shows "draw_prediction (\<lambda>t. 7 * of_nat (length t)) p =
   [StrokeRect ''#f87171'' 4 10 10 50 60,
    FillRect ''rgba(0,0,0,0.6)'' 10 0 93 22,
    FillText ''#ffffff'' label_font ''knife 92.0%'' 18 12]"
  using assms(1, 3) label_knife [OF assms(1, 2)]
  by (simp add: draw_prediction_def Let_def DANGEROUS_def binary64_values)

theorem drawBoxes_label_chip_witness:
  "sublist
     [StrokeRect ''#f87171'' 4 10 10 50 60,
      FillRect ''rgba(0,0,0,0.6)'' 10 0 93 22,
      FillText ''#ffffff'' label_font ''knife 92.0%'' 18 12]
     (canvas (drawBoxes
        [\<lparr>pclass = ''knife'', score = binary64 (92 / 100), bbox = (10, 10, 50, 60)\<rparr>,
         \<lparr>pclass = ''person'', score = binary64 (81 / 100), bbox = (100, 100, 40, 80)\<rparr>]
        1000 fresh_page))
   \<and> sublist
     [StrokeRect ''#7dd3fc'' 2 100 100 40 80,
      FillRect ''rgba(0,0,0,0.6)'' 100 78 100 22,
      FillText ''#ffffff'' label_font ''person 81.0%'' 108 94]
     (canvas (drawBoxes
        [\<lparr>pclass = ''knife'', score = binary64 (92 / 100), bbox = (10, 10, 50, 60)\<rparr>,
         \<lparr>pclass = ''person'', score = binary64 (81 / 100), bbox = (100, 100, 40, 80)\<rparr>]
        1000 fresh_page))
   \<and> (10::rat) < 22 \<and> (22::rat) \<le> 100"
proof -
  let ?k = "\<lparr>pclass = ''knife'', score = binary64 (92 / 100), bbox = (10, 10, 50, 60)\<rparr>"
  let ?q = "\<lparr>pclass = ''person'', score = binary64 (81 / 100), bbox = (100, 100, 40, 80)\<rparr>"
  have mt: "measureText fresh_page = (\<lambda>t. 7 * of_nat (length t))"
    by (simp add: fresh_page_def page_def)
  have lk: "label ?k = ''knife 92.0%''" by (rule label_knife) simp_all
  have lq: "label ?q = ''person 81.0%''" by (rule label_person) simp_all
  have k: "?k \<in> set [?k, ?q]" "bbox ?k = (10, 10, 50, 60)" by simp_all
  have q: "?q \<in> set [?k, ?q]" "bbox ?q = (100, 100, 40, 80)" by simp_all
  have "sublist
     [StrokeRect ''#f87171'' 4 10 10 50 60,
      FillRect ''rgba(0,0,0,0.6)'' 10 0 93 22,
      FillText ''#ffffff'' label_font ''knife 92.0%'' 18 12]
     (canvas (drawBoxes [?k, ?q] 1000 fresh_page))"
    using drawBoxes_label_chip [OF k, of fresh_page 1000, THEN conjunct1, unfolded lk mt]
    by (simp add: DANGEROUS_def binary64_values)
  moreover have "sublist
     [StrokeRect ''#7dd3fc'' 2 100 100 40 80,
      FillRect ''rgba(0,0,0,0.6)'' 100 78 100 22,
      FillText ''#ffffff'' label_font ''person 81.0%'' 108 94]
     (canvas (drawBoxes [?k, ?q] 1000 fresh_page))"
    using drawBoxes_label_chip [OF q, of fresh_page 1000, THEN conjunct1, unfolded lq mt]
    by (simp add: DANGEROUS_def binary64_values)
  ultimately show ?thesis by simp
qed

text \<open>
  The claim as the specification words it fails on its own example: the box of the
  knife begins at row 10, the chip drawn for it covers rows 0 to 22, so it lies over
  the top of the box and not above it.
\<close>

theorem drawBoxes_label_chip_counterexample:
  "canvas (drawBoxes
      [\<lparr>pclass = ''knife'', score = binary64 (92 / 100), bbox = (10, 10, 50, 60)\<rparr>]
      1000 fresh_page) =
     [StrokeRect ''#f87171'' 4 10 10 50 60,
      FillRect ''rgba(0,0,0,0.6)'' 10 0 93 22,
      FillText ''#ffffff'' label_font ''knife 92.0%'' 18 12,
      FillRect ''rgba(0,0,0,0.5)'' 8 8 110 26,
      FillText ''#e6ecf2'' label_font ''~1000.0 FPS'' 16 26]
   \<and> (10::rat) < 0 + 22"
  by (simp add: canvas_drawBoxes fresh_page_def page_def knife_drawn fps_first toFixed1_1000)

end
